theory Spec2Isabelle
  imports Complex_Main "HOL-Library.Monad_Syntax"
begin

section \<open>Tensors\<close>

text \<open>
  The module \<^verbatim>\<open>core/layers.py\<close> builds every result from calls into the tensor library.
  A tensor is modelled the way the library stores it: a shape and the elements in row-major
  order. Floating-point numbers are idealised as real numbers (no rounding, no overflow,
  no NaN); integer tensors hold \<open>int\<close>, boolean tensors hold \<open>bool\<close>.
  A library call that fails (it raises an invalid-argument error when the graph is run)
  returns \<open>None\<close>.
\<close>

record 'a tensor =
  shape :: "nat list"
  data :: "'a list"

definition has_shape :: "'a tensor \<Rightarrow> nat list \<Rightarrow> bool" where
  "has_shape t s \<longleftrightarrow> shape t = s \<and> length (data t) = prod_list s"

text \<open>Reading an element of a vector, a matrix, and a rank-3 tensor (row-major).\<close>

definition at1 :: "'a tensor \<Rightarrow> nat \<Rightarrow> 'a" where
  "at1 t i = data t ! i"

definition at2 :: "'a tensor \<Rightarrow> nat \<Rightarrow> nat \<Rightarrow> 'a" where
  "at2 t i j = data t ! (i * (shape t ! 1) + j)"

definition at3 :: "'a tensor \<Rightarrow> nat \<Rightarrow> nat \<Rightarrow> nat \<Rightarrow> 'a" where
  "at3 t i j k = data t ! ((i * (shape t ! 1) + j) * (shape t ! 2) + k)"

section \<open>The tensor library's operations\<close>

text \<open>\<^verbatim>\<open>tf.shape(X)[i]\<close>: the size of axis \<open>i\<close>; indexing beyond the rank fails.\<close>

definition tf_shape_at :: "'a tensor \<Rightarrow> nat \<Rightarrow> nat option" where
  "tf_shape_at t i = (if i < length (shape t) then Some (shape t ! i) else None)"

text \<open>
  \<^verbatim>\<open>tf.reshape(t, sizes)\<close>: the elements stay in place and the shape changes. At most one
  size may be \<open>-1\<close>; it is inferred from the number of elements, which the library can do
  only when the other sizes have a non-zero product that divides the number of elements.
\<close>

definition tf_reshape :: "'a tensor \<Rightarrow> int list \<Rightarrow> 'a tensor option" where
  "tf_reshape t sizes =
     (let n = prod_list (shape t);
          p = prod_list (map nat (filter (\<lambda>s. s \<noteq> - 1) sizes))
      in if list_ex (\<lambda>s. s < - 1) sizes then None
         else if count_list sizes (- 1) = 0 then
           (if p = n then Some \<lparr>shape = map nat sizes, data = data t\<rparr> else None)
         else if count_list sizes (- 1) = 1 then
           (if 0 < p \<and> n mod p = 0
            then Some \<lparr>shape = map (\<lambda>s. if s = - 1 then n div p else nat s) sizes, data = data t\<rparr>
            else None)
         else None)"

text \<open>\<^verbatim>\<open>tf.expand_dims(t, axis)\<close>: a new axis of size 1 at position \<open>axis\<close>.\<close>

definition tf_expand_dims :: "'a tensor \<Rightarrow> nat \<Rightarrow> 'a tensor option" where
  "tf_expand_dims t axis =
     (if axis \<le> length (shape t)
      then Some \<lparr>shape = take axis (shape t) @ [1] @ drop axis (shape t), data = data t\<rparr>
      else None)"

text \<open>\<^verbatim>\<open>tf.matmul(A, B)\<close>: the product of two matrices whose inner sizes agree.\<close>

definition tf_matmul :: "real tensor \<Rightarrow> real tensor \<Rightarrow> real tensor option" where
  "tf_matmul A B =
     (case (shape A, shape B) of
        ([n, m], [m', p]) \<Rightarrow>
          if m = m'
          then Some \<lparr>shape = [n, p],
                     data = map (\<lambda>k. \<Sum>j\<leftarrow>[0..<m]. data A ! ((k div p) * m + j) * data B ! (j * p + k mod p))
                                [0..<n * p]\<rparr>
          else None
      | _ \<Rightarrow> None)"

text \<open>
  Broadcasting of the elementwise binary operators (\<^verbatim>\<open>+\<close> and \<^verbatim>\<open>*\<close> on tensors):
  the shapes are aligned at their last axes; two sizes are compatible when they are equal
  or one of them is 1. The functions below work on reversed shapes.
\<close>

fun bcast_rev :: "nat list \<Rightarrow> nat list \<Rightarrow> nat list option" where
  "bcast_rev [] ys = Some ys"
| "bcast_rev (x # xs) [] = Some (x # xs)"
| "bcast_rev (x # xs) (y # ys) =
     (if x = y \<or> y = 1 then map_option ((#) x) (bcast_rev xs ys)
      else if x = 1 then map_option ((#) y) (bcast_rev xs ys)
      else None)"

text \<open>
  \<open>bidx as ss k\<close>: the position in an operand of (reversed) shape \<open>as\<close> that is read for
  position \<open>k\<close> of the result of (reversed) shape \<open>ss\<close>. An axis of size 1 of the operand is
  read at index 0 whatever the index of the result.
\<close>

fun bidx :: "nat list \<Rightarrow> nat list \<Rightarrow> nat \<Rightarrow> nat" where
  "bidx [] ss k = 0"
| "bidx (a # as) [] k = 0"
| "bidx (a # as) (s # ss) k = (if a = 1 then 0 else k mod s) + a * bidx as ss (k div s)"

definition tf_binop :: "('a \<Rightarrow> 'a \<Rightarrow> 'a) \<Rightarrow> 'a tensor \<Rightarrow> 'a tensor \<Rightarrow> 'a tensor option" where
  "tf_binop f A B =
     (case bcast_rev (rev (shape A)) (rev (shape B)) of
        None \<Rightarrow> None
      | Some rs \<Rightarrow>
          Some \<lparr>shape = rev rs,
                data = map (\<lambda>k. f (data A ! bidx (rev (shape A)) rs k)
                                  (data B ! bidx (rev (shape B)) rs k))
                           [0..<prod_list rs]\<rparr>)"

definition tf_add :: "real tensor \<Rightarrow> real tensor \<Rightarrow> real tensor option" where
  "tf_add = tf_binop (+)"

definition tf_mul :: "real tensor \<Rightarrow> real tensor \<Rightarrow> real tensor option" where
  "tf_mul = tf_binop (*)"

text \<open>The elementwise activations \<^verbatim>\<open>tf.nn.sigmoid\<close>, \<^verbatim>\<open>tf.nn.relu\<close>, \<^verbatim>\<open>tf.nn.tanh\<close>.\<close>

definition tmap :: "('a \<Rightarrow> 'b) \<Rightarrow> 'a tensor \<Rightarrow> 'b tensor" where
  "tmap f t = \<lparr>shape = shape t, data = map f (data t)\<rparr>"

definition sigmoid :: "real \<Rightarrow> real" where
  "sigmoid x = 1 / (1 + exp (- x))"

definition relu :: "real \<Rightarrow> real" where
  "relu x = max 0 x"

definition tf_sigmoid :: "real tensor \<Rightarrow> real tensor" where
  "tf_sigmoid = tmap sigmoid"

definition tf_relu :: "real tensor \<Rightarrow> real tensor" where
  "tf_relu = tmap relu"

definition tf_tanh :: "real tensor \<Rightarrow> real tensor" where
  "tf_tanh = tmap tanh"

text \<open>
  \<^verbatim>\<open>tf.reduce_sum(t, axis)\<close>: the sum along one axis, which disappears from the shape.
\<close>

definition tf_reduce_sum :: "real tensor \<Rightarrow> nat \<Rightarrow> real tensor option" where
  "tf_reduce_sum t axis =
     (if axis < length (shape t)
      then let m = shape t ! axis;
               inner = prod_list (drop (Suc axis) (shape t));
               outer = prod_list (take axis (shape t))
           in Some \<lparr>shape = take axis (shape t) @ drop (Suc axis) (shape t),
                     data = map (\<lambda>k. \<Sum>j\<leftarrow>[0..<m]. data t ! (((k div inner) * m + j) * inner + k mod inner))
                                [0..<outer * inner]\<rparr>
      else None)"

text \<open>
  \<^verbatim>\<open>tf.nn.softmax(logits)\<close> on a matrix: every row is exponentiated and divided by its sum.
\<close>

definition tf_softmax :: "real tensor \<Rightarrow> real tensor option" where
  "tf_softmax t =
     (case shape t of
        [n, l] \<Rightarrow>
          Some \<lparr>shape = [n, l],
                data = map (\<lambda>k. exp (data t ! k) / (\<Sum>j\<leftarrow>[0..<l]. exp (data t ! ((k div l) * l + j))))
                           [0..<n * l]\<rparr>
      | _ \<Rightarrow> None)"

text \<open>
  \<^verbatim>\<open>tf.split(split_dim, num_split, value)\<close> (the argument order of the library version the
  module is written for): \<open>num_split\<close> tensors of equal size along axis \<open>split_dim\<close>, whose
  size must be divisible by \<open>num_split\<close>.
\<close>

definition tf_split :: "nat \<Rightarrow> nat \<Rightarrow> 'a tensor \<Rightarrow> 'a tensor list option" where
  "tf_split axis num t =
     (if axis < length (shape t) \<and> 0 < num \<and> (shape t ! axis) mod num = 0
      then let m = shape t ! axis;
               w = m div num;
               inner = prod_list (drop (Suc axis) (shape t));
               outer = prod_list (take axis (shape t))
           in Some (map (\<lambda>p. \<lparr>shape = (shape t)[axis := w],
                                data = map (\<lambda>k. data t ! (((k div (w * inner)) * m + p * w) * inner
                                                              + k mod (w * inner)))
                                           [0..<outer * (w * inner)]\<rparr>)
                        [0..<num])
      else None)"

text \<open>
  \<^verbatim>\<open>tf.nn.embedding_lookup(params, ids)\<close>: the rows of \<open>params\<close> selected by \<open>ids\<close>, in the
  shape of \<open>ids\<close>. An index outside the rows of \<open>params\<close> is an error.
\<close>

definition tf_embedding_lookup :: "'a tensor \<Rightarrow> int tensor \<Rightarrow> 'a tensor option" where
  "tf_embedding_lookup params ids =
     (case shape params of
        [] \<Rightarrow> None
      | v # rest \<Rightarrow>
          let m = prod_list rest in
          if list_all (\<lambda>i. 0 \<le> i \<and> i < int v) (data ids)
          then Some \<lparr>shape = shape ids @ rest,
                     data = map (\<lambda>k. data params ! (nat (data ids ! (k div m)) * m + k mod m))
                                [0..<prod_list (shape ids) * m]\<rparr>
          else None)"

text \<open>
  \<^verbatim>\<open>tf.one_hot(indices, depth, on_value, off_value)\<close>: a new last axis of size \<open>depth\<close>;
  an index outside \<open>[0, depth)\<close> gives a row of \<open>off_value\<close> only.
\<close>

definition tf_one_hot :: "int tensor \<Rightarrow> nat \<Rightarrow> 'a \<Rightarrow> 'a \<Rightarrow> 'a tensor" where
  "tf_one_hot indices depth on_value off_value =
     \<lparr>shape = shape indices @ [depth],
      data = map (\<lambda>k. if data indices ! (k div depth) = int (k mod depth) then on_value else off_value)
                 [0..<prod_list (shape indices) * depth]\<rparr>"

text \<open>
  \<^verbatim>\<open>tf.nn.dropout(x, keep_prob)\<close>: the library draws one uniform random number in \<open>[0, 1)\<close>
  for every element, keeps the element (divided by \<open>keep_prob\<close>) when
  \<open>floor (keep_prob + draw)\<close> is 1 and replaces it by 0 otherwise. The draws come from the
  library's random generator; they are the extra argument \<open>draws\<close> (the \<open>k\<close>-th draw of the call).
\<close>

definition tf_dropout :: "real tensor \<Rightarrow> real \<Rightarrow> (nat \<Rightarrow> real) \<Rightarrow> real tensor option" where
  "tf_dropout x keep_prob draws =
     (if 0 < keep_prob \<and> keep_prob \<le> 1
      then Some \<lparr>shape = shape x,
                 data = map (\<lambda>k. data x ! k / keep_prob * of_int \<lfloor>keep_prob + draws k\<rfloor>)
                            [0..<prod_list (shape x)]\<rparr>
      else None)"

section \<open>The layers of \<^verbatim>\<open>core/layers.py\<close>\<close>

subsection \<open>The affine layers\<close>

definition affine_forward :: "real tensor \<Rightarrow> real tensor \<Rightarrow> real tensor \<Rightarrow> real tensor option" where
  "affine_forward X W b = do {
     xw \<leftarrow> tf_matmul X W;
     tf_add xw b
   }"

definition affine_sigmoid_forward :: "real tensor \<Rightarrow> real tensor \<Rightarrow> real tensor \<Rightarrow> real tensor option" where
  "affine_sigmoid_forward X W b = do {
     a \<leftarrow> affine_forward X W b;
     Some (tf_sigmoid a)
   }"

definition affine_relu_forward :: "real tensor \<Rightarrow> real tensor \<Rightarrow> real tensor \<Rightarrow> real tensor option" where
  "affine_relu_forward X W b = do {
     a \<leftarrow> affine_forward X W b;
     Some (tf_relu a)
   }"

definition affine_tanh_forward :: "real tensor \<Rightarrow> real tensor \<Rightarrow> real tensor \<Rightarrow> real tensor option" where
  "affine_tanh_forward X W b = do {
     a \<leftarrow> affine_forward X W b;
     Some (tf_tanh a)
   }"

subsection \<open>The initial state, the embedding, the projection and the attention\<close>

text \<open>Two runs of the generator: every draw 0 (all elements dropped), every draw 1/2 (all kept).\<close>

definition draws_all_dropped :: "nat \<Rightarrow> real" where
  "draws_all_dropped k = 0"

definition draws_all_kept :: "nat \<Rightarrow> real" where
  "draws_all_kept k = 1 / 2"

text \<open>
  \<open>init_lstm\<close>: the random draws that \<^verbatim>\<open>tf.nn.dropout\<close> takes from the library's generator
  are the last argument.
\<close>

definition init_lstm ::
  "real tensor \<Rightarrow> real tensor \<Rightarrow> real tensor \<Rightarrow> real tensor \<Rightarrow> real tensor \<Rightarrow> bool \<Rightarrow> (nat \<Rightarrow> real)
     \<Rightarrow> real tensor option" where
  "init_lstm X W1 b1 W2 b2 use_dropout draws = do {
     h \<leftarrow> affine_relu_forward X W1 b1;
     h \<leftarrow> (if use_dropout then tf_dropout h (1 / 2) draws else Some h);
     affine_tanh_forward h W2 b2
   }"

definition word_embedding_forward :: "int tensor \<Rightarrow> real tensor \<Rightarrow> real tensor option" where
  "word_embedding_forward X W_embed = tf_embedding_lookup W_embed X"

definition project_feature :: "real tensor \<Rightarrow> real tensor \<Rightarrow> real tensor option" where
  "project_feature X W = do {
     L \<leftarrow> tf_shape_at X 1;
     D \<leftarrow> tf_shape_at X 2;
     X' \<leftarrow> tf_reshape X [- 1, int D];
     out \<leftarrow> tf_matmul X' W;
     tf_reshape out [- 1, int L, int D]
   }"

definition attention_forward ::
  "real tensor \<Rightarrow> real tensor \<Rightarrow> real tensor \<Rightarrow> real tensor \<Rightarrow> real tensor \<Rightarrow> real tensor
     \<Rightarrow> (real tensor \<times> real tensor) option" where
  "attention_forward X X_proj prev_h W_proj_h b_proj W_att = do {
     L \<leftarrow> tf_shape_at X 1;
     D \<leftarrow> tf_shape_at X 2;
     h_proj \<leftarrow> tf_matmul prev_h W_proj_h;
     h_proj \<leftarrow> tf_expand_dims h_proj 1;
     s \<leftarrow> tf_add X_proj h_proj;
     s \<leftarrow> tf_add s b_proj;
     let hidden = tf_relu s;
     hidden_flat \<leftarrow> tf_reshape hidden [- 1, int D];
     out \<leftarrow> tf_matmul hidden_flat W_att;
     out \<leftarrow> tf_reshape out [- 1, int L];
     alpha \<leftarrow> tf_softmax out;
     alpha_expand \<leftarrow> tf_expand_dims alpha 2;
     xa \<leftarrow> tf_mul X alpha_expand;
     context \<leftarrow> tf_reduce_sum xa 1;
     Some (context, alpha)
   }"

text \<open>
  The attention score of position \<open>l\<close> of example \<open>n\<close> as claim C2 words it: \<open>W_att\<close> applied to
  \<open>relu (X_proj[n, l] + prev_h[n] W_proj_h + b_proj)\<close>, the sizes read from the inputs' shapes.
\<close>

definition attention_score ::
  "real tensor \<Rightarrow> real tensor \<Rightarrow> real tensor \<Rightarrow> real tensor \<Rightarrow> real tensor \<Rightarrow> nat \<Rightarrow> nat \<Rightarrow> real" where
  "attention_score X_proj prev_h W_proj_h b_proj W_att n l =
     (\<Sum>d<shape X_proj ! 2.
         relu (at3 X_proj n l d + (\<Sum>k<shape prev_h ! 1. at2 prev_h n k * at2 W_proj_h k d) + at1 b_proj d)
         * at2 W_att d 0)"

subsection \<open>The recurrent steps and the loss\<close>

text \<open>
  In \<open>rnn_step_forward\<close> the source adds \<open>b\<close> to the result of \<^verbatim>\<open>tf.nn.tanh(...)\<close>; in
  \<open>lstm_step_forward\<close> it adds \<open>b\<close> to the sum of the three products.
\<close>

definition rnn_step_forward ::
  "real tensor \<Rightarrow> real tensor \<Rightarrow> real tensor \<Rightarrow> real tensor \<Rightarrow> real tensor \<Rightarrow> real tensor \<Rightarrow> real tensor
     \<Rightarrow> real tensor option" where
  "rnn_step_forward X prev_h context Wx Wh Wz b = do {
     xw \<leftarrow> tf_matmul X Wx;
     hw \<leftarrow> tf_matmul prev_h Wh;
     s \<leftarrow> tf_add xw hw;
     zw \<leftarrow> tf_matmul context Wz;
     s \<leftarrow> tf_add s zw;
     tf_add (tf_tanh s) b
   }"

definition lstm_step_forward ::
  "real tensor \<Rightarrow> real tensor \<Rightarrow> real tensor \<Rightarrow> real tensor \<Rightarrow> real tensor \<Rightarrow> real tensor \<Rightarrow> real tensor
     \<Rightarrow> real tensor \<Rightarrow> (real tensor \<times> real tensor) option" where
  "lstm_step_forward X prev_h prev_c context Wx Wh Wz b = do {
     xw \<leftarrow> tf_matmul X Wx;
     hw \<leftarrow> tf_matmul prev_h Wh;
     s \<leftarrow> tf_add xw hw;
     zw \<leftarrow> tf_matmul context Wz;
     s \<leftarrow> tf_add s zw;
     a \<leftarrow> tf_add s b;
     parts \<leftarrow> tf_split 1 4 a;
     (case parts of
        [a_i, a_f, a_o, a_g] \<Rightarrow> do {
          let i = tf_sigmoid a_i;
          let f = tf_sigmoid a_f;
          let o' = tf_sigmoid a_o;
          let g = tf_tanh a_g;
          fc \<leftarrow> tf_mul f prev_c;
          ig \<leftarrow> tf_mul i g;
          c \<leftarrow> tf_add fc ig;
          h \<leftarrow> tf_mul o' (tf_tanh c);
          Some (h, c)
        }
      | _ \<Rightarrow> None)
   }"

text \<open>
  The pre-activation of the gates as claim C1 words it: entry \<open>(n, k)\<close> of
  \<open>X Wx + prev_h Wh + context Wz + b\<close>, the inner sizes read from the inputs' shapes.
\<close>

definition lstm_preact ::
  "real tensor \<Rightarrow> real tensor \<Rightarrow> real tensor \<Rightarrow> real tensor \<Rightarrow> real tensor \<Rightarrow> real tensor
     \<Rightarrow> real tensor \<Rightarrow> nat \<Rightarrow> nat \<Rightarrow> real" where
  "lstm_preact X prev_h context Wx Wh Wz b n k =
     (\<Sum>m<shape X ! 1. at2 X n m * at2 Wx m k)
     + (\<Sum>j<shape prev_h ! 1. at2 prev_h n j * at2 Wh j k)
     + (\<Sum>d<shape context ! 1. at2 context n d * at2 Wz d k)
     + at1 b k"

section \<open>Facts about the library's operations\<close>

subsection \<open>Row-major indices\<close>

lemma idx2_less: "i < n \<Longrightarrow> c < p \<Longrightarrow> i * p + c < n * (p::nat)"
proof -
  assume a: "i < n" "c < p"
  then have "i * p + c < i * p + p" by simp
  also have "\<dots> = Suc i * p" by simp
  also from a have "\<dots> \<le> n * p" by (intro mult_le_mono1) simp
  finally show ?thesis .
qed

lemma sum_list_upt: "(\<Sum>j\<leftarrow>[0..<m]. f j) = (\<Sum>j<m. f j)" for f :: "nat \<Rightarrow> real"
  by (simp add: interv_sum_list_conv_sum_set_nat atLeast0LessThan)

lemma tmap_shape: "has_shape t s \<Longrightarrow> has_shape (tmap f t) s"
  by (simp add: has_shape_def tmap_def)

lemma tmap_at2:
  assumes "has_shape t [n, k]" "i < n" "j < k"
  shows "at2 (tmap f t) i j = f (at2 t i j)"
  using assms idx2_less[of i n j k] by (simp add: has_shape_def tmap_def at2_def)

lemma tf_matmul_ok:
  assumes "has_shape A [n, m]" "has_shape B [m, p]"
  shows "\<exists>C. tf_matmul A B = Some C \<and> has_shape C [n, p] \<and>
           (\<forall>i<n. \<forall>c<p. at2 C i c = (\<Sum>j<m. at2 A i j * at2 B j c))"
  using assms
  by (simp add: tf_matmul_def has_shape_def at2_def idx2_less sum_list_upt)

lemma tf_binop_Some:
  assumes "bcast_rev (rev (shape A)) (rev (shape B)) = Some rs"
  shows "\<exists>C. tf_binop f A B = Some C \<and> has_shape C (rev rs) \<and>
           (\<forall>k<prod_list rs. data C ! k =
               f (data A ! bidx (rev (shape A)) rs k) (data B ! bidx (rev (shape B)) rs k))"
  using assms by (simp add: tf_binop_def has_shape_def)

lemma bidx_bias:
  assumes "i < n" "c < k"
  shows "bidx [k, n] [k, n] (i * k + c) = i * k + c" "bidx [k] [k, n] (i * k + c) = c"
  using assms by (auto simp: mult.commute)

lemma tf_binop_bias:
  assumes "has_shape A [n, k]" "has_shape b [k]"
  shows "\<exists>C. tf_binop f A b = Some C \<and> has_shape C [n, k] \<and>
           (\<forall>i<n. \<forall>c<k. at2 C i c = f (at2 A i c) (at1 b c))"
proof -
  from assms have sh: "shape A = [n, k]" "shape b = [k]" by (simp_all add: has_shape_def)
  have "bcast_rev (rev (shape A)) (rev (shape b)) = Some [k, n]" by (simp add: sh)
  from tf_binop_Some[OF this, of f] obtain C where C: "tf_binop f A b = Some C"
    "has_shape C (rev [k, n])"
    "\<And>j. j < prod_list [k, n] \<Longrightarrow> data C ! j =
               f (data A ! bidx (rev (shape A)) [k, n] j) (data b ! bidx (rev (shape b)) [k, n] j)"
    by blast
  have "at2 C i c = f (at2 A i c) (at1 b c)" if "i < n" "c < k" for i c
  proof -
    have "i * k + c < prod_list [k, n]" using idx2_less[OF that] by (simp add: mult.commute)
    from C(3)[OF this] show ?thesis
      using C(2) by (simp only: sh rev.simps append.simps bidx_bias[OF that] at2_def at1_def has_shape_def nth_Cons_0 nth_Cons_Suc One_nat_def)
  qed
  with C(1,2) show ?thesis by auto
qed

lemma tf_add_bias:
  assumes "has_shape A [n, k]" "has_shape b [k]"
  shows "\<exists>C. tf_add A b = Some C \<and> has_shape C [n, k] \<and>
           (\<forall>i<n. \<forall>c<k. at2 C i c = at2 A i c + at1 b c)"
  unfolding tf_add_def by (rule tf_binop_bias[OF assms])

lemma bcast_rev_same: "bcast_rev s s = Some s"
  by (induction s) simp_all

lemma bidx_same: "k < prod_list s \<Longrightarrow> bidx s s k = k"
proof (induction s arbitrary: k)
  case Nil
  then show ?case by simp
next
  case (Cons a as)
  then have "k div a < prod_list as"
    by (simp add: less_mult_imp_div_less mult.commute)
  then have "bidx as as (k div a) = k div a" by (rule Cons.IH)
  then show ?case by (cases "a = 1") simp_all
qed

lemma tf_binop_same:
  assumes "has_shape A s" "has_shape B s"
  shows "\<exists>C. tf_binop f A B = Some C \<and> has_shape C s \<and>
           (\<forall>k<prod_list s. data C ! k = f (data A ! k) (data B ! k))"
proof -
  from assms have sh: "shape A = s" "shape B = s" by (simp_all add: has_shape_def)
  have "bcast_rev (rev (shape A)) (rev (shape B)) = Some (rev s)"
    by (simp add: sh bcast_rev_same)
  from tf_binop_Some[OF this, of f] show ?thesis
    by (simp add: sh bidx_same)
qed

lemma tf_binop_same2:
  assumes "has_shape A [n, k]" "has_shape B [n, k]"
  shows "\<exists>C. tf_binop f A B = Some C \<and> has_shape C [n, k] \<and>
           (\<forall>i<n. \<forall>c<k. at2 C i c = f (at2 A i c) (at2 B i c))"
proof -
  from tf_binop_same[OF assms, of f] obtain C where C: "tf_binop f A B = Some C" "has_shape C [n, k]"
    "\<And>j. j < n * k \<Longrightarrow> data C ! j = f (data A ! j) (data B ! j)"
    by auto
  have "at2 C i c = f (at2 A i c) (at2 B i c)" if "i < n" "c < k" for i c
    using C(3)[OF idx2_less[OF that]] C(2) assms by (simp add: at2_def has_shape_def)
  with C(1,2) show ?thesis by blast
qed

lemma tf_embedding_lookup_ok:
  assumes W: "has_shape W_embed [V, M]"
    and X: "has_shape X s"
    and rng: "\<forall>i\<in>set (data X). 0 \<le> i \<and> i < int V"
  shows "\<exists>out. tf_embedding_lookup W_embed X = Some out \<and> has_shape out (s @ [M]) \<and>
           (\<forall>k<prod_list s. \<forall>m<M. data out ! (k * M + m) = data W_embed ! (nat (data X ! k) * M + m))"
proof -
  from W X have sh: "shape W_embed = [V, M]" "shape X = s" by (simp_all add: has_shape_def)
  from rng have "list_all (\<lambda>i. 0 \<le> i \<and> i < int V) (data X)" by (simp add: list_all_iff)
  then show ?thesis
    by (simp add: tf_embedding_lookup_def sh has_shape_def idx2_less)
qed

subsection \<open>Reshaping\<close>

lemma sizes_of_nat:
  "filter (\<lambda>s. s \<noteq> - 1) (map int ds) = map int ds"
  "count_list (map int ds) (- 1) = 0"
  "list_ex (\<lambda>s. s < - 1) (map int ds) = False"
  "map (\<lambda>s. if s = - 1 then (q::nat) else nat s) (map int ds) = ds"
  "map nat (map int ds) = ds"
  by (induction ds) simp_all

lemma tf_reshape_infer:
  "tf_reshape t (- 1 # map int ds) =
     (if 0 < prod_list ds \<and> prod_list (shape t) mod prod_list ds = 0
      then Some \<lparr>shape = (prod_list (shape t) div prod_list ds) # ds, data = data t\<rparr>
      else None)"
  by (simp add: tf_reshape_def sizes_of_nat Let_def comp_def del: map_map)

lemma tf_shape_at_ok: "has_shape t s \<Longrightarrow> i < length s \<Longrightarrow> tf_shape_at t i = Some (s ! i)"
  by (simp add: tf_shape_at_def has_shape_def)

subsection \<open>Splitting a matrix into four column blocks\<close>

lemma upt_4: "[0..<4] = [0, 1, 2, 3]"
  by (simp add: upt_rec)

lemma tf_split_4_eq:
  assumes "shape a = [N, 4 * H]"
  shows "tf_split 1 4 a =
     Some (map (\<lambda>q. \<lparr>shape = [N, H],
                      data = map (\<lambda>k. data a ! ((k div H * (4 * H) + q * H) + k mod H)) [0..<N * H]\<rparr>)
               [0, 1, 2, 3])"
  by (simp add: tf_split_def assms upt_4 Let_def)

lemma split_piece_at2:
  assumes "shape a = [N, 4 * H]" "n < N" "j < H"
  shows "at2 \<lparr>shape = [N, H],
              data = map (\<lambda>k. data a ! ((k div H * (4 * H) + q * H) + k mod H)) [0..<N * H]\<rparr> n j
         = at2 a n (q * H + j)"
proof -
  have "n * H + j < N * H" by (rule idx2_less[OF assms(2,3)])
  moreover have "(n * H + j) div H = n" "(n * H + j) mod H = j" using assms(3) by simp_all
  ultimately show ?thesis by (simp add: at2_def assms(1) add.assoc)
qed

lemma tf_split_4:
  assumes "has_shape a [N, 4 * H]"
  shows "\<exists>p0 p1 p2 p3. tf_split 1 4 a = Some [p0, p1, p2, p3] \<and>
           has_shape p0 [N, H] \<and> has_shape p1 [N, H] \<and> has_shape p2 [N, H] \<and> has_shape p3 [N, H] \<and>
           (\<forall>n<N. \<forall>j<H. at2 p0 n j = at2 a n j \<and> at2 p1 n j = at2 a n (H + j) \<and>
                          at2 p2 n j = at2 a n (2 * H + j) \<and> at2 p3 n j = at2 a n (3 * H + j))"
proof -
  from assms have sh: "shape a = [N, 4 * H]" by (simp add: has_shape_def)
  show ?thesis
    unfolding tf_split_4_eq[OF sh]
    using split_piece_at2[OF sh, where q = 0] split_piece_at2[OF sh, where q = 1]
      split_piece_at2[OF sh, where q = 2] split_piece_at2[OF sh, where q = 3]
    by (simp add: has_shape_def)
qed

subsection \<open>Rank-3 tensors: broadcasting, reduction, softmax\<close>

lemma idx3_less: "n < N \<Longrightarrow> l < L \<Longrightarrow> d < D \<Longrightarrow> (n * L + l) * D + d < N * L * (D::nat)"
  by (rule idx2_less[OF idx2_less])

lemma bidx_rank3:
  assumes "n < N" "l < L" "d < D"
  shows "bidx [D, 1, N] [D, L, N] ((n * L + l) * D + d) = n * D + d"
    and "bidx [D] [D, L, N] ((n * L + l) * D + d) = d"
    and "bidx [1, L, N] [D, L, N] ((n * L + l) * D + d) = n * L + l"
proof -
  have dm: "((n * L + l) * D + d) mod D = d" "((n * L + l) * D + d) div D = n * L + l"
    "(n * L + l) mod L = l" "(n * L + l) div L = n" "n mod N = n"
    using assms by simp_all
  show "bidx [D, 1, N] [D, L, N] ((n * L + l) * D + d) = n * D + d"
    using assms by (auto simp: dm)
  show "bidx [D] [D, L, N] ((n * L + l) * D + d) = d"
    using assms by (auto simp: dm)
  show "bidx [1, L, N] [D, L, N] ((n * L + l) * D + d) = n * L + l"
    using assms by (auto simp: dm)
qed

lemma tf_binop_rank3:
  assumes A: "has_shape A [N, L, D]"
    and bc: "bcast_rev [D, L, N] (rev (shape B)) = Some [D, L, N]"
    and ix: "\<And>n l d. n < N \<Longrightarrow> l < L \<Longrightarrow> d < D \<Longrightarrow>
               bidx (rev (shape B)) [D, L, N] ((n * L + l) * D + d) = g n l d"
  shows "\<exists>C. tf_binop f A B = Some C \<and> has_shape C [N, L, D] \<and>
           (\<forall>n<N. \<forall>l<L. \<forall>d<D. at3 C n l d = f (at3 A n l d) (data B ! g n l d))"
proof -
  from A have sh: "shape A = [N, L, D]" by (simp add: has_shape_def)
  have "bcast_rev (rev (shape A)) (rev (shape B)) = Some [D, L, N]" using bc by (simp add: sh)
  from tf_binop_Some[OF this, of f] obtain C where C: "tf_binop f A B = Some C"
    "has_shape C [N, L, D]"
    "\<And>k. k < prod_list [D, L, N] \<Longrightarrow> data C ! k =
               f (data A ! bidx [D, L, N] [D, L, N] k) (data B ! bidx (rev (shape B)) [D, L, N] k)"
    by (auto simp: sh)
  have "at3 C n l d = f (at3 A n l d) (data B ! g n l d)" if "n < N" "l < L" "d < D" for n l d
  proof -
    have k: "(n * L + l) * D + d < prod_list [D, L, N]"
      using idx3_less[OF that] by (simp add: mult.commute)
    have "data C ! ((n * L + l) * D + d)
          = f (data A ! ((n * L + l) * D + d)) (data B ! g n l d)"
      by (simp only: C(3)[OF k] bidx_same[OF k] ix[OF that])
    then show ?thesis using C(2) sh by (simp add: at3_def has_shape_def)
  qed
  with C(1,2) show ?thesis by blast
qed

lemma tf_expand_dims_1: "has_shape t [N, D] \<Longrightarrow> tf_expand_dims t 1 = Some \<lparr>shape = [N, 1, D], data = data t\<rparr>"
  by (simp add: tf_expand_dims_def has_shape_def)

lemma tf_expand_dims_2: "has_shape t [N, L] \<Longrightarrow> tf_expand_dims t 2 = Some \<lparr>shape = [N, L, 1], data = data t\<rparr>"
  by (simp add: tf_expand_dims_def has_shape_def)

lemma tf_reduce_sum_axis1:
  assumes "has_shape t [N, L, D]"
  shows "\<exists>C. tf_reduce_sum t 1 = Some C \<and> has_shape C [N, D] \<and>
           (\<forall>n<N. \<forall>d<D. at2 C n d = (\<Sum>l<L. at3 t n l d))"
  using assms
  by (simp add: tf_reduce_sum_def has_shape_def at2_def at3_def idx2_less sum_list_upt)

lemma tf_softmax_ok:
  assumes "has_shape t [N, L]"
  shows "\<exists>A. tf_softmax t = Some A \<and> has_shape A [N, L] \<and>
           (\<forall>n<N. \<forall>l<L. at2 A n l = exp (at2 t n l) / (\<Sum>l'<L. exp (at2 t n l')))"
  using assms
  by (simp add: tf_softmax_def has_shape_def at2_def idx2_less sum_list_upt)

lemma tmap_at3:
  assumes "has_shape t [N, L, D]" "n < N" "l < L" "d < D"
  shows "at3 (tmap f t) n l d = f (at3 t n l d)"
  using assms idx3_less[of n N l L d D] by (simp add: has_shape_def tmap_def at3_def)

section \<open>The affine layers compute \<open>X W + b\<close> and its activations\<close>

text \<open>
  Claim C7. For \<open>X\<close> of shape \<open>(N, H)\<close>, \<open>W\<close> of shape \<open>(H, V)\<close> and \<open>b\<close> of shape \<open>(V)\<close>,
  \<open>affine_forward\<close> returns the matrix of shape \<open>(N, V)\<close> whose entry \<open>(n, v)\<close> is
  \<open>\<Sum>h<H. X[n, h] * W[h, v] + b[v]\<close>, and \<open>affine_sigmoid_forward\<close>, \<open>affine_relu_forward\<close> and
  \<open>affine_tanh_forward\<close> return the sigmoid, the relu and the tanh of these entries.
\<close>

theorem affine_forward_correct:
  assumes "has_shape X [N, H]" "has_shape W [H, V]" "has_shape b [V]"
  shows "\<exists>out s r t.
           affine_forward X W b = Some out \<and> affine_sigmoid_forward X W b = Some s \<and>
           affine_relu_forward X W b = Some r \<and> affine_tanh_forward X W b = Some t \<and>
           has_shape out [N, V] \<and> has_shape s [N, V] \<and> has_shape r [N, V] \<and> has_shape t [N, V] \<and>
           (\<forall>n<N. \<forall>v<V.
              at2 out n v = (\<Sum>h<H. at2 X n h * at2 W h v) + at1 b v \<and>
              at2 s n v = sigmoid (at2 out n v) \<and>
              at2 r n v = relu (at2 out n v) \<and>
              at2 t n v = tanh (at2 out n v))"
proof -
  from tf_matmul_ok[OF assms(1,2)] obtain xw where xw: "tf_matmul X W = Some xw"
    "has_shape xw [N, V]" "\<And>n v. n < N \<Longrightarrow> v < V \<Longrightarrow> at2 xw n v = (\<Sum>h<H. at2 X n h * at2 W h v)"
    by blast
  from tf_add_bias[OF xw(2) assms(3)] obtain out where out: "tf_add xw b = Some out"
    "has_shape out [N, V]" "\<And>n v. n < N \<Longrightarrow> v < V \<Longrightarrow> at2 out n v = at2 xw n v + at1 b v"
    by blast
  have a: "affine_forward X W b = Some out" by (simp add: affine_forward_def xw(1) out(1))
  show ?thesis
    unfolding affine_sigmoid_forward_def affine_relu_forward_def affine_tanh_forward_def a
      tf_sigmoid_def tf_relu_def tf_tanh_def
    using out(2) by (simp add: tmap_shape tmap_at2[OF out(2)] out(3) xw(3))
qed

theorem affine_forward_correct_witness:
  "has_shape \<lparr>shape = [1, 2], data = [2, 3]\<rparr> [1, 2] \<and>
   has_shape \<lparr>shape = [2, 1], data = [5, 7]\<rparr> [2, 1] \<and>
   has_shape \<lparr>shape = [1], data = [1]\<rparr> [1] \<and>
   (\<exists>out t. affine_forward \<lparr>shape = [1, 2], data = [2, 3]\<rparr> \<lparr>shape = [2, 1], data = [5, 7]\<rparr>
                \<lparr>shape = [1], data = [1]\<rparr> = Some out \<and>
            affine_tanh_forward \<lparr>shape = [1, 2], data = [2, 3]\<rparr> \<lparr>shape = [2, 1], data = [5, 7]\<rparr>
                \<lparr>shape = [1], data = [1]\<rparr> = Some t \<and>
            at2 out 0 0 = 32 \<and> at2 t 0 0 = tanh 32)"
  using affine_forward_correct [of "\<lparr>shape = [1, 2], data = [2, 3]\<rparr>" 1 2
      "\<lparr>shape = [2, 1], data = [5, 7]\<rparr>" 1 "\<lparr>shape = [1], data = [1]\<rparr>"]
  by (auto simp: has_shape_def at2_def at1_def numeral_2_eq_2 lessThan_Suc)

section \<open>The recurrent step adds the bias after the tanh\<close>

text \<open>
  What \<open>rnn_step_forward\<close> computes: the tanh of the three products, and the bias added to
  the result of the tanh.
\<close>

lemma rnn_step_forward_computes:
  assumes "has_shape X [N, M]" "has_shape prev_h [N, H]" "has_shape context [N, D]"
    "has_shape Wx [M, H]" "has_shape Wh [H, H]" "has_shape Wz [D, H]" "has_shape b [H]"
  shows "\<exists>h. rnn_step_forward X prev_h context Wx Wh Wz b = Some h \<and> has_shape h [N, H] \<and>
           (\<forall>n<N. \<forall>j<H. at2 h n j =
              tanh ((\<Sum>m<M. at2 X n m * at2 Wx m j) + (\<Sum>k<H. at2 prev_h n k * at2 Wh k j)
                     + (\<Sum>d<D. at2 context n d * at2 Wz d j)) + at1 b j)"
proof -
  from tf_matmul_ok[OF assms(1,4)] obtain xw where xw: "tf_matmul X Wx = Some xw"
    "has_shape xw [N, H]" "\<And>n j. n < N \<Longrightarrow> j < H \<Longrightarrow> at2 xw n j = (\<Sum>m<M. at2 X n m * at2 Wx m j)"
    by blast
  from tf_matmul_ok[OF assms(2,5)] obtain hw where hw: "tf_matmul prev_h Wh = Some hw"
    "has_shape hw [N, H]" "\<And>n j. n < N \<Longrightarrow> j < H \<Longrightarrow> at2 hw n j = (\<Sum>k<H. at2 prev_h n k * at2 Wh k j)"
    by blast
  from tf_matmul_ok[OF assms(3,6)] obtain zw where zw: "tf_matmul context Wz = Some zw"
    "has_shape zw [N, H]" "\<And>n j. n < N \<Longrightarrow> j < H \<Longrightarrow> at2 zw n j = (\<Sum>d<D. at2 context n d * at2 Wz d j)"
    by blast
  from tf_binop_same2[OF xw(2) hw(2), of "(+)"] obtain s1 where s1: "tf_add xw hw = Some s1"
    "has_shape s1 [N, H]" "\<And>n j. n < N \<Longrightarrow> j < H \<Longrightarrow> at2 s1 n j = at2 xw n j + at2 hw n j"
    unfolding tf_add_def by blast
  from tf_binop_same2[OF s1(2) zw(2), of "(+)"] obtain s2 where s2: "tf_add s1 zw = Some s2"
    "has_shape s2 [N, H]" "\<And>n j. n < N \<Longrightarrow> j < H \<Longrightarrow> at2 s2 n j = at2 s1 n j + at2 zw n j"
    unfolding tf_add_def by blast
  have th: "has_shape (tf_tanh s2) [N, H]" unfolding tf_tanh_def by (rule tmap_shape[OF s2(2)])
  from tf_add_bias[OF th assms(7)] obtain h where h: "tf_add (tf_tanh s2) b = Some h"
    "has_shape h [N, H]" "\<And>n j. n < N \<Longrightarrow> j < H \<Longrightarrow> at2 h n j = at2 (tf_tanh s2) n j + at1 b j"
    by blast
  have "rnn_step_forward X prev_h context Wx Wh Wz b = Some h"
    by (simp add: rnn_step_forward_def xw(1) hw(1) zw(1) s1(1) s2(1) h(1))
  moreover have "at2 h n j = tanh ((\<Sum>m<M. at2 X n m * at2 Wx m j) + (\<Sum>k<H. at2 prev_h n k * at2 Wh k j)
                     + (\<Sum>d<D. at2 context n d * at2 Wz d j)) + at1 b j" if "n < N" "j < H" for n j
    using that by (simp add: h(3) tf_tanh_def tmap_at2[OF s2(2)] s2(3) s1(3) xw(3) hw(3) zw(3))
  ultimately show ?thesis using h(2) by blast
qed

text \<open>
  Claim C4 states \<open>h = tanh (X Wx + prev_h Wh + context Wz + b)\<close>. The code closes the
  parenthesis of the tanh before the bias. With all inputs and weights 0 and the bias 1, for
  \<open>N = M = H = D = 1\<close>, the code returns \<open>tanh 0 + 1 = 1\<close>, while the stated update is
  \<open>tanh 1\<close>, which is smaller than 1.
\<close>

theorem rnn_step_forward_bias_outside_tanh:
  "rnn_step_forward \<lparr>shape = [1, 1], data = [0]\<rparr> \<lparr>shape = [1, 1], data = [0]\<rparr>
      \<lparr>shape = [1, 1], data = [0]\<rparr> \<lparr>shape = [1, 1], data = [0]\<rparr> \<lparr>shape = [1, 1], data = [0]\<rparr>
      \<lparr>shape = [1, 1], data = [0]\<rparr> \<lparr>shape = [1], data = [1]\<rparr>
     = Some \<lparr>shape = [1, 1], data = [1]\<rparr>
   \<and> tanh (0 * 0 + 0 * 0 + 0 * 0 + 1 :: real) \<noteq> 1"
proof -
  have "tanh (1::real) < 1" by (rule tanh_real_lt_1)
  then show ?thesis
    by (simp add: rnn_step_forward_def tf_matmul_def tf_add_def tf_binop_def tf_tanh_def tmap_def)
qed

section \<open>Determinism and the random draws of dropout\<close>

text \<open>
  Claim C5 states that every function of the module returns equal outputs for equal inputs,
  \<open>init_lstm\<close> with \<open>use_dropout\<close> included. With dropout the result depends on the numbers
  the library's random generator draws: for the same \<open>X = [[1]]\<close>, \<open>W1 = W2 = [[1]]\<close>,
  \<open>b1 = b2 = [0]\<close>, a run whose draw drops the hidden unit returns \<open>tanh 0\<close> and a run whose
  draw keeps it returns \<open>tanh 2\<close>.
\<close>

theorem init_lstm_dropout_not_deterministic:
  "init_lstm \<lparr>shape = [1, 1], data = [1]\<rparr> \<lparr>shape = [1, 1], data = [1]\<rparr> \<lparr>shape = [1], data = [0]\<rparr>
      \<lparr>shape = [1, 1], data = [1]\<rparr> \<lparr>shape = [1], data = [0]\<rparr> True draws_all_dropped
   \<noteq>
   init_lstm \<lparr>shape = [1, 1], data = [1]\<rparr> \<lparr>shape = [1, 1], data = [1]\<rparr> \<lparr>shape = [1], data = [0]\<rparr>
      \<lparr>shape = [1, 1], data = [1]\<rparr> \<lparr>shape = [1], data = [0]\<rparr> True draws_all_kept"
  by (simp add: init_lstm_def affine_relu_forward_def affine_tanh_forward_def affine_forward_def
      tf_matmul_def tf_add_def tf_binop_def tf_relu_def tf_tanh_def tmap_def relu_def tf_dropout_def
      draws_all_dropped_def draws_all_kept_def)

section \<open>The embedding lookup\<close>

text \<open>
  Claim C6. For \<open>W_embed\<close> of shape \<open>(V, M)\<close> and an index tensor \<open>X\<close> whose entries all lie in
  \<open>[0, V)\<close>: when \<open>X\<close> has shape \<open>(N, T)\<close>, \<open>word_embedding_forward\<close> returns a tensor of shape
  \<open>(N, T, M)\<close> with \<open>out[n, t] = W_embed[X[n, t]]\<close>; when \<open>X\<close> has shape \<open>(N)\<close>, it returns a
  tensor of shape \<open>(N, M)\<close> with \<open>out[n] = W_embed[X[n]]\<close>.
\<close>

theorem word_embedding_forward_correct:
  assumes W: "has_shape W_embed [V, M]"
    and rng: "\<forall>i\<in>set (data X). 0 \<le> i \<and> i < int V"
  shows "(has_shape X [N, T] \<longrightarrow>
           (\<exists>out. word_embedding_forward X W_embed = Some out \<and> has_shape out [N, T, M] \<and>
              (\<forall>n<N. \<forall>t<T. \<forall>m<M. at3 out n t m = at2 W_embed (nat (at2 X n t)) m)))
       \<and> (has_shape X [N] \<longrightarrow>
           (\<exists>out. word_embedding_forward X W_embed = Some out \<and> has_shape out [N, M] \<and>
              (\<forall>n<N. \<forall>m<M. at2 out n m = at2 W_embed (nat (at1 X n)) m)))"
proof (intro conjI impI)
  assume X: "has_shape X [N, T]"
  from tf_embedding_lookup_ok[OF W X rng] obtain out where out:
    "tf_embedding_lookup W_embed X = Some out" "has_shape out [N, T, M]"
    "\<And>k m. k < N * T \<Longrightarrow> m < M \<Longrightarrow> data out ! (k * M + m) = data W_embed ! (nat (data X ! k) * M + m)"
    by auto
  have "at3 out n t m = at2 W_embed (nat (at2 X n t)) m" if "n < N" "t < T" "m < M" for n t m
    using out(3)[OF idx2_less[OF that(1,2)] that(3)] out(2) X W
    by (simp add: at3_def at2_def has_shape_def)
  with out(1,2) show "\<exists>out. word_embedding_forward X W_embed = Some out \<and> has_shape out [N, T, M] \<and>
              (\<forall>n<N. \<forall>t<T. \<forall>m<M. at3 out n t m = at2 W_embed (nat (at2 X n t)) m)"
    unfolding word_embedding_forward_def by blast
next
  assume X: "has_shape X [N]"
  from tf_embedding_lookup_ok[OF W X rng] obtain out where out:
    "tf_embedding_lookup W_embed X = Some out" "has_shape out [N, M]"
    "\<And>k m. k < N \<Longrightarrow> m < M \<Longrightarrow> data out ! (k * M + m) = data W_embed ! (nat (data X ! k) * M + m)"
    by auto
  have "at2 out n m = at2 W_embed (nat (at1 X n)) m" if "n < N" "m < M" for n m
    using out(3)[OF that] out(2) X W
    by (simp add: at2_def at1_def has_shape_def)
  with out(1,2) show "\<exists>out. word_embedding_forward X W_embed = Some out \<and> has_shape out [N, M] \<and>
              (\<forall>n<N. \<forall>m<M. at2 out n m = at2 W_embed (nat (at1 X n)) m)"
    unfolding word_embedding_forward_def by blast
qed

theorem word_embedding_forward_correct_witness:
  "has_shape \<lparr>shape = [2, 1], data = [10, 20 :: real]\<rparr> [2, 1] \<and>
   (0::int) \<le> 1 \<and> (1::int) < int 2 \<and> (0::int) \<le> 0 \<and> (0::int) < int 2 \<and>
   has_shape \<lparr>shape = [1, 2], data = [1, 0 :: int]\<rparr> [1, 2] \<and>
   has_shape \<lparr>shape = [2], data = [1, 0 :: int]\<rparr> [2] \<and>
   (\<exists>out. word_embedding_forward \<lparr>shape = [1, 2], data = [1, 0]\<rparr> \<lparr>shape = [2, 1], data = [10, 20]\<rparr> = Some out
          \<and> at3 out 0 0 0 = 20 \<and> at3 out 0 1 0 = 10) \<and>
   (\<exists>out. word_embedding_forward \<lparr>shape = [2], data = [1, 0]\<rparr> \<lparr>shape = [2, 1], data = [10, 20]\<rparr> = Some out
          \<and> at2 out 0 0 = 20 \<and> at2 out 1 0 = 10)"
  using word_embedding_forward_correct [of "\<lparr>shape = [2, 1], data = [10, 20]\<rparr>" 2 1
           "\<lparr>shape = [1, 2], data = [1, 0]\<rparr>" 1 2]
        word_embedding_forward_correct [of "\<lparr>shape = [2, 1], data = [10, 20]\<rparr>" 2 1
           "\<lparr>shape = [2], data = [1, 0]\<rparr>" 2 1]
  by (auto simp: has_shape_def at3_def at2_def at1_def)

section \<open>The projection of the features\<close>

text \<open>
  Claim C8 states the result for every \<open>X\<close> of shape \<open>(N, L, D)\<close>. When \<open>L\<close> or \<open>D\<close> is 0 the
  library cannot infer the \<open>-1\<close> of a reshape, and the call fails: for \<open>X\<close> of shape
  \<open>(2, 0, 1)\<close> the second reshape, to \<open>[-1, 0, 1]\<close>, fails, and for \<open>X\<close> of shape \<open>(1, 1, 0)\<close>
  the first one, to \<open>[-1, 0]\<close>.
\<close>

theorem project_feature_degenerate:
  "project_feature \<lparr>shape = [2, 0, 1], data = []\<rparr> \<lparr>shape = [1, 1], data = [1]\<rparr> = None \<and>
   project_feature \<lparr>shape = [1, 1, 0], data = []\<rparr> \<lparr>shape = [0, 0], data = []\<rparr> = None"
  by (simp add: project_feature_def tf_shape_at_def tf_reshape_def tf_matmul_def)

text \<open>
  Claim C8, amended. For \<open>X\<close> of shape \<open>(N, L, D)\<close> with \<open>L > 0\<close> and \<open>D > 0\<close> and \<open>W\<close> of shape
  \<open>(D, D)\<close>, \<open>project_feature\<close> returns a tensor of shape \<open>(N, L, D)\<close> with
  \<open>out[n, l, d] = \<Sum>j<D. X[n, l, j] * W[j, d]\<close>: every position is projected on its own.
\<close>

theorem project_feature_correct:
  assumes X: "has_shape X [N, L, D]" and W: "has_shape W [D, D]"
    and pos: "0 < L" "0 < D"
  shows "\<exists>out. project_feature X W = Some out \<and> has_shape out [N, L, D] \<and>
           (\<forall>n<N. \<forall>l<L. \<forall>d<D. at3 out n l d = (\<Sum>j<D. at3 X n l j * at2 W j d))"
proof -
  let ?X' = "\<lparr>shape = [N * L, D], data = data X\<rparr>"
  have r1: "tf_reshape X [- 1, int D] = Some ?X'"
    using tf_reshape_infer[of X "[D]"] X pos by (simp add: has_shape_def)
  have X': "has_shape ?X' [N * L, D]" using X by (simp add: has_shape_def)
  from tf_matmul_ok[OF X' W] obtain out where out: "tf_matmul ?X' W = Some out"
    "has_shape out [N * L, D]"
    "\<And>r d. r < N * L \<Longrightarrow> d < D \<Longrightarrow> at2 out r d = (\<Sum>j<D. at2 ?X' r j * at2 W j d)"
    by blast
  let ?res = "\<lparr>shape = [N, L, D], data = data out\<rparr>"
  have r2: "tf_reshape out [- 1, int L, int D] = Some ?res"
    using tf_reshape_infer[of out "[L, D]"] out(2) pos by (simp add: has_shape_def)
  have pf: "project_feature X W = Some ?res"
    using X by (simp add: project_feature_def tf_shape_at_ok[OF X] r1 out(1) r2)
  have sh: "has_shape ?res [N, L, D]" using out(2) by (simp add: has_shape_def)
  have "at3 ?res n l d = (\<Sum>j<D. at3 X n l j * at2 W j d)" if "n < N" "l < L" "d < D" for n l d
  proof -
    have "at3 ?res n l d = at2 out (n * L + l) d"
      using out(2) by (simp add: at3_def at2_def has_shape_def)
    also have "\<dots> = (\<Sum>j<D. at2 ?X' (n * L + l) j * at2 W j d)"
      by (rule out(3)[OF idx2_less[OF that(1,2)] that(3)])
    also have "\<dots> = (\<Sum>j<D. at3 X n l j * at2 W j d)"
      using X by (simp add: at3_def at2_def has_shape_def)
    finally show ?thesis .
  qed
  with pf sh show ?thesis by blast
qed

theorem project_feature_correct_witness:
  "has_shape \<lparr>shape = [1, 2, 1], data = [3, 4 :: real]\<rparr> [1, 2, 1] \<and>
   has_shape \<lparr>shape = [1, 1], data = [5 :: real]\<rparr> [1, 1] \<and> (0::nat) < 2 \<and> (0::nat) < 1 \<and>
   (\<exists>out. project_feature \<lparr>shape = [1, 2, 1], data = [3, 4]\<rparr> \<lparr>shape = [1, 1], data = [5]\<rparr> = Some out \<and>
          at3 out 0 0 0 = 15 \<and> at3 out 0 1 0 = 20)"
  using project_feature_correct [of "\<lparr>shape = [1, 2, 1], data = [3, 4]\<rparr>" 1 2 1
           "\<lparr>shape = [1, 1], data = [5]\<rparr>"]
  by (auto simp: has_shape_def at3_def at2_def)

section \<open>The LSTM step\<close>

text \<open>
  Claim C1. For \<open>X\<close> of shape \<open>(N, M)\<close>, \<open>prev_h\<close> and \<open>prev_c\<close> of shape \<open>(N, H)\<close>, \<open>context\<close> of
  shape \<open>(N, D)\<close>, \<open>Wx\<close> of shape \<open>(M, 4H)\<close>, \<open>Wh\<close> of shape \<open>(H, 4H)\<close>, \<open>Wz\<close> of shape \<open>(D, 4H)\<close>
  and \<open>b\<close> of shape \<open>(4H)\<close>, \<open>lstm_step_forward\<close> returns \<open>(h, c)\<close>, both of shape \<open>(N, H)\<close>, with
  \<open>c = f * prev_c + i * g\<close> and \<open>h = o * tanh c\<close> entrywise, where \<open>i\<close>, \<open>f\<close>, \<open>o\<close> are the sigmoid of
  the first, second and third block of \<open>H\<close> columns of \<open>a = X Wx + prev_h Wh + context Wz + b\<close>
  and \<open>g\<close> is the tanh of the fourth.
\<close>

theorem lstm_step_forward_correct:
  assumes X: "has_shape X [N, M]" and ph: "has_shape prev_h [N, H]" and pc: "has_shape prev_c [N, H]"
    and cx: "has_shape context [N, D]"
    and Wx: "has_shape Wx [M, 4 * H]" and Wh: "has_shape Wh [H, 4 * H]" and Wz: "has_shape Wz [D, 4 * H]"
    and b: "has_shape b [4 * H]"
  shows "\<exists>h c. lstm_step_forward X prev_h prev_c context Wx Wh Wz b = Some (h, c) \<and>
           has_shape h [N, H] \<and> has_shape c [N, H] \<and>
           (\<forall>n<N. \<forall>j<H.
              at2 c n j = sigmoid (lstm_preact X prev_h context Wx Wh Wz b n (H + j)) * at2 prev_c n j
                          + sigmoid (lstm_preact X prev_h context Wx Wh Wz b n j)
                            * tanh (lstm_preact X prev_h context Wx Wh Wz b n (3 * H + j)) \<and>
              at2 h n j = sigmoid (lstm_preact X prev_h context Wx Wh Wz b n (2 * H + j)) * tanh (at2 c n j))"
proof -
  let ?a = "lstm_preact X prev_h context Wx Wh Wz b"
  from tf_matmul_ok[OF X Wx] obtain xw where xw: "tf_matmul X Wx = Some xw"
    "has_shape xw [N, 4 * H]"
    "\<And>n k. n < N \<Longrightarrow> k < 4 * H \<Longrightarrow> at2 xw n k = (\<Sum>m<M. at2 X n m * at2 Wx m k)"
    by blast
  from tf_matmul_ok[OF ph Wh] obtain hw where hw: "tf_matmul prev_h Wh = Some hw"
    "has_shape hw [N, 4 * H]"
    "\<And>n k. n < N \<Longrightarrow> k < 4 * H \<Longrightarrow> at2 hw n k = (\<Sum>j<H. at2 prev_h n j * at2 Wh j k)"
    by blast
  from tf_matmul_ok[OF cx Wz] obtain zw where zw: "tf_matmul context Wz = Some zw"
    "has_shape zw [N, 4 * H]"
    "\<And>n k. n < N \<Longrightarrow> k < 4 * H \<Longrightarrow> at2 zw n k = (\<Sum>d<D. at2 context n d * at2 Wz d k)"
    by blast
  from tf_binop_same2[OF xw(2) hw(2), of "(+)"] obtain s1 where s1: "tf_add xw hw = Some s1"
    "has_shape s1 [N, 4 * H]"
    "\<And>n k. n < N \<Longrightarrow> k < 4 * H \<Longrightarrow> at2 s1 n k = at2 xw n k + at2 hw n k"
    unfolding tf_add_def by blast
  from tf_binop_same2[OF s1(2) zw(2), of "(+)"] obtain s2 where s2: "tf_add s1 zw = Some s2"
    "has_shape s2 [N, 4 * H]"
    "\<And>n k. n < N \<Longrightarrow> k < 4 * H \<Longrightarrow> at2 s2 n k = at2 s1 n k + at2 zw n k"
    unfolding tf_add_def by blast
  from tf_add_bias[OF s2(2) b] obtain a where a: "tf_add s2 b = Some a"
    "has_shape a [N, 4 * H]"
    "\<And>n k. n < N \<Longrightarrow> k < 4 * H \<Longrightarrow> at2 a n k = at2 s2 n k + at1 b k"
    by blast
  have pre: "at2 a n k = ?a n k" if "n < N" "k < 4 * H" for n k
    using that X ph cx
    by (simp add: a(3) s2(3) s1(3) xw(3) hw(3) zw(3) lstm_preact_def has_shape_def)
  from tf_split_4[OF a(2)] obtain a_i a_f a_o a_g where sp:
    "tf_split 1 4 a = Some [a_i, a_f, a_o, a_g]"
    "has_shape a_i [N, H]" "has_shape a_f [N, H]" "has_shape a_o [N, H]" "has_shape a_g [N, H]"
    "\<And>n j. n < N \<Longrightarrow> j < H \<Longrightarrow> at2 a_i n j = at2 a n j"
    "\<And>n j. n < N \<Longrightarrow> j < H \<Longrightarrow> at2 a_f n j = at2 a n (H + j)"
    "\<And>n j. n < N \<Longrightarrow> j < H \<Longrightarrow> at2 a_o n j = at2 a n (2 * H + j)"
    "\<And>n j. n < N \<Longrightarrow> j < H \<Longrightarrow> at2 a_g n j = at2 a n (3 * H + j)"
    by blast
  have gi: "has_shape (tf_sigmoid a_i) [N, H]" and gf: "has_shape (tf_sigmoid a_f) [N, H]"
    and go: "has_shape (tf_sigmoid a_o) [N, H]" and gg: "has_shape (tf_tanh a_g) [N, H]"
    unfolding tf_sigmoid_def tf_tanh_def by (rule tmap_shape, fact)+
  from tf_binop_same2[OF gf pc, of "(*)"] obtain fc where fc: "tf_mul (tf_sigmoid a_f) prev_c = Some fc"
    "has_shape fc [N, H]"
    "\<And>n j. n < N \<Longrightarrow> j < H \<Longrightarrow> at2 fc n j = at2 (tf_sigmoid a_f) n j * at2 prev_c n j"
    unfolding tf_mul_def by blast
  from tf_binop_same2[OF gi gg, of "(*)"] obtain ig where ig: "tf_mul (tf_sigmoid a_i) (tf_tanh a_g) = Some ig"
    "has_shape ig [N, H]"
    "\<And>n j. n < N \<Longrightarrow> j < H \<Longrightarrow> at2 ig n j = at2 (tf_sigmoid a_i) n j * at2 (tf_tanh a_g) n j"
    unfolding tf_mul_def by blast
  from tf_binop_same2[OF fc(2) ig(2), of "(+)"] obtain c where c: "tf_add fc ig = Some c"
    "has_shape c [N, H]"
    "\<And>n j. n < N \<Longrightarrow> j < H \<Longrightarrow> at2 c n j = at2 fc n j + at2 ig n j"
    unfolding tf_add_def by blast
  have tc: "has_shape (tf_tanh c) [N, H]" unfolding tf_tanh_def by (rule tmap_shape[OF c(2)])
  from tf_binop_same2[OF go tc, of "(*)"] obtain h where h: "tf_mul (tf_sigmoid a_o) (tf_tanh c) = Some h"
    "has_shape h [N, H]"
    "\<And>n j. n < N \<Longrightarrow> j < H \<Longrightarrow> at2 h n j = at2 (tf_sigmoid a_o) n j * at2 (tf_tanh c) n j"
    unfolding tf_mul_def by blast
  have run: "lstm_step_forward X prev_h prev_c context Wx Wh Wz b = Some (h, c)"
    using sp(1) by (simp add: lstm_step_forward_def xw(1) hw(1) zw(1) s1(1) s2(1) a(1) fc(1) ig(1) c(1) h(1))
  have vals: "at2 c n j = sigmoid (?a n (H + j)) * at2 prev_c n j + sigmoid (?a n j) * tanh (?a n (3 * H + j))
            \<and> at2 h n j = sigmoid (?a n (2 * H + j)) * tanh (at2 c n j)" if "n < N" "j < H" for n j
  proof -
    from that(2) have k: "j < 4 * H" "H + j < 4 * H" "2 * H + j < 4 * H" "3 * H + j < 4 * H" by simp_all
    have "at2 c n j = sigmoid (at2 a_f n j) * at2 prev_c n j + sigmoid (at2 a_i n j) * tanh (at2 a_g n j)"
      using that by (simp add: c(3) fc(3) ig(3) tf_sigmoid_def tf_tanh_def
          tmap_at2[OF sp(2)] tmap_at2[OF sp(3)] tmap_at2[OF sp(5)])
    moreover have "at2 h n j = sigmoid (at2 a_o n j) * tanh (at2 c n j)"
      using that by (simp add: h(3) tf_sigmoid_def tf_tanh_def tmap_at2[OF sp(4)] tmap_at2[OF c(2)])
    ultimately show ?thesis
      using that k by (simp add: sp(6-9) pre)
  qed
  from run h(2) c(2) vals show ?thesis by blast
qed

theorem lstm_step_forward_correct_witness:
  "has_shape \<lparr>shape = [1, 1], data = [2 :: real]\<rparr> [1, 1] \<and>
   has_shape \<lparr>shape = [1, 1], data = [3 :: real]\<rparr> [1, 1] \<and>
   has_shape \<lparr>shape = [1, 4], data = [1, 0, 0, 0 :: real]\<rparr> [1, 4 * 1] \<and>
   has_shape \<lparr>shape = [4], data = [0, 0, 0, 0 :: real]\<rparr> [4 * 1] \<and>
   (\<exists>h c. lstm_step_forward \<lparr>shape = [1, 1], data = [2]\<rparr> \<lparr>shape = [1, 1], data = [2]\<rparr>
            \<lparr>shape = [1, 1], data = [3]\<rparr> \<lparr>shape = [1, 1], data = [2]\<rparr>
            \<lparr>shape = [1, 4], data = [1, 0, 0, 0]\<rparr> \<lparr>shape = [1, 4], data = [1, 0, 0, 0]\<rparr>
            \<lparr>shape = [1, 4], data = [1, 0, 0, 0]\<rparr> \<lparr>shape = [4], data = [0, 0, 0, 0]\<rparr> = Some (h, c) \<and>
          at2 c 0 0 = sigmoid 0 * 3 + sigmoid 6 * tanh 0 \<and>
          at2 h 0 0 = sigmoid 0 * tanh (at2 c 0 0))"
  using lstm_step_forward_correct [of "\<lparr>shape = [1, 1], data = [2]\<rparr>" 1 1 "\<lparr>shape = [1, 1], data = [2]\<rparr>" 1
      "\<lparr>shape = [1, 1], data = [3]\<rparr>" "\<lparr>shape = [1, 1], data = [2]\<rparr>" 1
      "\<lparr>shape = [1, 4], data = [1, 0, 0, 0]\<rparr>" "\<lparr>shape = [1, 4], data = [1, 0, 0, 0]\<rparr>"
      "\<lparr>shape = [1, 4], data = [1, 0, 0, 0]\<rparr>" "\<lparr>shape = [4], data = [0, 0, 0, 0]\<rparr>"]
  by (auto simp: has_shape_def lstm_preact_def at2_def at1_def)

section \<open>Soft attention\<close>

text \<open>
  The steps of \<open>attention_forward\<close> up to the hidden layer, then the whole function when \<open>L\<close> and
  \<open>D\<close> are positive, and its failure when one of them is 0.
\<close>

lemma attention_hidden:
  assumes Xp: "has_shape X_proj [N, L, D]" and ph: "has_shape prev_h [N, H]"
    and Wp: "has_shape W_proj_h [H, D]" and bp: "has_shape b_proj [D]"
  shows "\<exists>hp hp' s1 s2. tf_matmul prev_h W_proj_h = Some hp \<and> tf_expand_dims hp 1 = Some hp' \<and>
           tf_add X_proj hp' = Some s1 \<and> tf_add s1 b_proj = Some s2 \<and>
           has_shape (tf_relu s2) [N, L, D] \<and>
           (\<forall>n<N. \<forall>l<L. \<forall>d<D. at3 (tf_relu s2) n l d =
              relu (at3 X_proj n l d + (\<Sum>k<H. at2 prev_h n k * at2 W_proj_h k d) + at1 b_proj d))"
proof -
  from tf_matmul_ok[OF ph Wp] obtain hp where hp: "tf_matmul prev_h W_proj_h = Some hp"
    "has_shape hp [N, D]"
    "\<And>n d. n < N \<Longrightarrow> d < D \<Longrightarrow> at2 hp n d = (\<Sum>k<H. at2 prev_h n k * at2 W_proj_h k d)"
    by blast
  let ?hp' = "\<lparr>shape = [N, 1, D], data = data hp\<rparr>"
  note e1 = tf_expand_dims_1[OF hp(2)]
  have "\<exists>C. tf_binop (+) X_proj ?hp' = Some C \<and> has_shape C [N, L, D] \<and>
           (\<forall>n<N. \<forall>l<L. \<forall>d<D. at3 C n l d = at3 X_proj n l d + data ?hp' ! (n * D + d))"
    by (rule tf_binop_rank3[OF Xp]) (simp_all add: bidx_rank3[unfolded One_nat_def] del: bidx.simps)
  then obtain s1 where s1: "tf_add X_proj ?hp' = Some s1" "has_shape s1 [N, L, D]"
    "\<And>n l d. n < N \<Longrightarrow> l < L \<Longrightarrow> d < D \<Longrightarrow> at3 s1 n l d = at3 X_proj n l d + data hp ! (n * D + d)"
    unfolding tf_add_def by auto
  have "\<exists>C. tf_binop (+) s1 b_proj = Some C \<and> has_shape C [N, L, D] \<and>
           (\<forall>n<N. \<forall>l<L. \<forall>d<D. at3 C n l d = at3 s1 n l d + data b_proj ! d)"
    using bp by (intro tf_binop_rank3[OF s1(2)]) (simp_all add: has_shape_def bidx_rank3[unfolded One_nat_def] del: bidx.simps)
  then obtain s2 where s2: "tf_add s1 b_proj = Some s2" "has_shape s2 [N, L, D]"
    "\<And>n l d. n < N \<Longrightarrow> l < L \<Longrightarrow> d < D \<Longrightarrow> at3 s2 n l d = at3 s1 n l d + data b_proj ! d"
    unfolding tf_add_def by auto
  have r: "has_shape (tf_relu s2) [N, L, D]" unfolding tf_relu_def by (rule tmap_shape[OF s2(2)])
  have "at3 (tf_relu s2) n l d =
          relu (at3 X_proj n l d + (\<Sum>k<H. at2 prev_h n k * at2 W_proj_h k d) + at1 b_proj d)"
    if "n < N" "l < L" "d < D" for n l d
  proof -
    have "data hp ! (n * D + d) = at2 hp n d" using hp(2) by (simp add: at2_def has_shape_def)
    then show ?thesis
      using that by (simp add: tf_relu_def tmap_at3[OF s2(2)] s2(3) s1(3) hp(3) at1_def)
  qed
  with hp(1) e1 s1(1) s2(1) r show ?thesis by blast
qed

lemma attention_forward_ok:
  assumes X: "has_shape X [N, L, D]" and Xp: "has_shape X_proj [N, L, D]" and ph: "has_shape prev_h [N, H]"
    and Wp: "has_shape W_proj_h [H, D]" and bp: "has_shape b_proj [D]" and Wa: "has_shape W_att [D, 1]"
    and pos: "0 < L" "0 < D"
  shows "\<exists>context alpha.
           attention_forward X X_proj prev_h W_proj_h b_proj W_att = Some (context, alpha) \<and>
           has_shape context [N, D] \<and> has_shape alpha [N, L] \<and>
           (\<forall>n<N. \<forall>l<L. at2 alpha n l =
              exp (attention_score X_proj prev_h W_proj_h b_proj W_att n l)
              / (\<Sum>l'<L. exp (attention_score X_proj prev_h W_proj_h b_proj W_att n l'))) \<and>
           (\<forall>n<N. \<forall>d<D. at2 context n d = (\<Sum>l<L. at2 alpha n l * at3 X n l d))"
proof -
  let ?sc = "attention_score X_proj prev_h W_proj_h b_proj W_att"
  from attention_hidden[OF Xp ph Wp bp] obtain hp hp' s1 s2 where pre:
    "tf_matmul prev_h W_proj_h = Some hp" "tf_expand_dims hp 1 = Some hp'"
    "tf_add X_proj hp' = Some s1" "tf_add s1 b_proj = Some s2"
    and hid: "has_shape (tf_relu s2) [N, L, D]"
    "\<And>n l d. n < N \<Longrightarrow> l < L \<Longrightarrow> d < D \<Longrightarrow> at3 (tf_relu s2) n l d =
        relu (at3 X_proj n l d + (\<Sum>k<H. at2 prev_h n k * at2 W_proj_h k d) + at1 b_proj d)"
    by blast
  let ?hf = "\<lparr>shape = [N * L, D], data = data (tf_relu s2)\<rparr>"
  have r1: "tf_reshape (tf_relu s2) [- 1, int D] = Some ?hf"
    using tf_reshape_infer[of "tf_relu s2" "[D]"] hid(1) pos by (simp add: has_shape_def)
  have hf: "has_shape ?hf [N * L, D]" using hid(1) by (simp add: has_shape_def)
  from tf_matmul_ok[OF hf Wa] obtain out where out: "tf_matmul ?hf W_att = Some out"
    "has_shape out [N * L, 1]"
    "\<And>r. r < N * L \<Longrightarrow> at2 out r 0 = (\<Sum>d<D. at2 ?hf r d * at2 W_att d 0)"
    by auto
  let ?o2 = "\<lparr>shape = [N, L], data = data out\<rparr>"
  have r2: "tf_reshape out [- 1, int L] = Some ?o2"
    using tf_reshape_infer[of out "[L]"] out(2) pos by (simp add: has_shape_def)
  have o2: "has_shape ?o2 [N, L]" using out(2) by (simp add: has_shape_def)
  have score: "at2 ?o2 n l = ?sc n l" if "n < N" "l < L" for n l
  proof -
    have "at2 ?o2 n l = at2 out (n * L + l) 0"
      using out(2) by (simp add: at2_def has_shape_def)
    also have "\<dots> = (\<Sum>d<D. at2 ?hf (n * L + l) d * at2 W_att d 0)"
      by (rule out(3)[OF idx2_less[OF that]])
    also have "\<dots> = (\<Sum>d<D. relu (at3 X_proj n l d + (\<Sum>k<H. at2 prev_h n k * at2 W_proj_h k d)
                                  + at1 b_proj d) * at2 W_att d 0)"
    proof (rule sum.cong[OF refl])
      fix d assume "d \<in> {..<D}"
      then have d: "d < D" by simp
      have "at2 ?hf (n * L + l) d = at3 (tf_relu s2) n l d"
        using hid(1) by (simp add: at2_def at3_def has_shape_def)
      then show "at2 ?hf (n * L + l) d * at2 W_att d 0 =
          relu (at3 X_proj n l d + (\<Sum>k<H. at2 prev_h n k * at2 W_proj_h k d) + at1 b_proj d) * at2 W_att d 0"
        by (simp only: hid(2)[OF that d])
    qed
    also have "\<dots> = ?sc n l"
      using Xp ph by (simp add: attention_score_def has_shape_def)
    finally show ?thesis .
  qed
  from tf_softmax_ok[OF o2] obtain alpha where al: "tf_softmax ?o2 = Some alpha"
    "has_shape alpha [N, L]"
    "\<And>n l. n < N \<Longrightarrow> l < L \<Longrightarrow> at2 alpha n l = exp (at2 ?o2 n l) / (\<Sum>l'<L. exp (at2 ?o2 n l'))"
    by blast
  have alpha: "at2 alpha n l = exp (?sc n l) / (\<Sum>l'<L. exp (?sc n l'))" if "n < N" "l < L" for n l
  proof -
    have "(\<Sum>l'<L. exp (at2 ?o2 n l')) = (\<Sum>l'<L. exp (?sc n l'))"
      by (rule sum.cong[OF refl]) (simp only: score[OF that(1)] lessThan_iff)
    then show ?thesis by (simp only: al(3)[OF that] score[OF that])
  qed
  let ?ae = "\<lparr>shape = [N, L, 1], data = data alpha\<rparr>"
  note e2 = tf_expand_dims_2[OF al(2)]
  have "\<exists>C. tf_binop (*) X ?ae = Some C \<and> has_shape C [N, L, D] \<and>
           (\<forall>n<N. \<forall>l<L. \<forall>d<D. at3 C n l d = at3 X n l d * data ?ae ! (n * L + l))"
    by (rule tf_binop_rank3[OF X]) (simp_all add: bidx_rank3[unfolded One_nat_def] del: bidx.simps)
  then obtain xa where xa: "tf_mul X ?ae = Some xa" "has_shape xa [N, L, D]"
    "\<And>n l d. n < N \<Longrightarrow> l < L \<Longrightarrow> d < D \<Longrightarrow> at3 xa n l d = at3 X n l d * data alpha ! (n * L + l)"
    unfolding tf_mul_def by auto
  from tf_reduce_sum_axis1[OF xa(2)] obtain cx where cx: "tf_reduce_sum xa 1 = Some cx"
    "has_shape cx [N, D]"
    "\<And>n d. n < N \<Longrightarrow> d < D \<Longrightarrow> at2 cx n d = (\<Sum>l<L. at3 xa n l d)"
    by blast
  have ctx: "at2 cx n d = (\<Sum>l<L. at2 alpha n l * at3 X n l d)" if "n < N" "d < D" for n d
  proof -
    have "(\<Sum>l<L. at3 xa n l d) = (\<Sum>l<L. at2 alpha n l * at3 X n l d)"
    proof (rule sum.cong[OF refl])
      fix l assume "l \<in> {..<L}"
      then have l: "l < L" by simp
      have "data alpha ! (n * L + l) = at2 alpha n l" using al(2) by (simp add: at2_def has_shape_def)
      then show "at3 xa n l d = at2 alpha n l * at3 X n l d"
        by (simp add: xa(3)[OF that(1) l that(2)])
    qed
    then show ?thesis by (simp only: cx(3)[OF that])
  qed
  have run: "attention_forward X X_proj prev_h W_proj_h b_proj W_att = Some (cx, alpha)"
    using pre cx(1) e2 xa(1)
    by (simp add: attention_forward_def tf_shape_at_ok[OF X] r1 out(1) r2 al(1))
  from run cx(2) al(2) alpha ctx show ?thesis by blast
qed

lemma attention_forward_fail:
  assumes X: "has_shape X [N, L, D]" and Xp: "has_shape X_proj [N, L, D]" and ph: "has_shape prev_h [N, H]"
    and Wp: "has_shape W_proj_h [H, D]" and bp: "has_shape b_proj [D]" and Wa: "has_shape W_att [D, 1]"
    and deg: "L = 0 \<or> D = 0"
  shows "attention_forward X X_proj prev_h W_proj_h b_proj W_att = None"
proof -
  from attention_hidden[OF Xp ph Wp bp] obtain hp hp' s1 s2 where pre:
    "tf_matmul prev_h W_proj_h = Some hp" "tf_expand_dims hp 1 = Some hp'"
    "tf_add X_proj hp' = Some s1" "tf_add s1 b_proj = Some s2"
    and hid: "has_shape (tf_relu s2) [N, L, D]"
    by blast
  show ?thesis
  proof (cases "D = 0")
    case True
    have "tf_reshape (tf_relu s2) [- 1, int D] = None"
      using tf_reshape_infer[of "tf_relu s2" "[D]"] True by simp
    with pre show ?thesis
      by (simp add: attention_forward_def tf_shape_at_ok[OF X])
  next
    case False
    with deg have L0: "L = 0" and D: "0 < D" by simp_all
    let ?hf = "\<lparr>shape = [N * L, D], data = data (tf_relu s2)\<rparr>"
    have r1: "tf_reshape (tf_relu s2) [- 1, int D] = Some ?hf"
      using tf_reshape_infer[of "tf_relu s2" "[D]"] hid(1) D by (simp add: has_shape_def)
    have hf: "has_shape ?hf [N * L, D]" using hid(1) by (simp add: has_shape_def)
    from tf_matmul_ok[OF hf Wa] obtain out where out: "tf_matmul ?hf W_att = Some out" by blast
    have "tf_reshape out [- 1, int L] = None"
      using tf_reshape_infer[of out "[L]"] L0 by simp
    with pre show ?thesis
      by (simp add: attention_forward_def tf_shape_at_ok[OF X] r1 out)
  qed
qed

text \<open>
  Claim C2 states the result for every \<open>X\<close> of shape \<open>(N, L, D)\<close>. With \<open>L = 0\<close> (or \<open>D = 0\<close>) the
  library cannot infer the \<open>-1\<close> of a reshape and nothing is returned: here \<open>X\<close> has shape
  \<open>(2, 0, 1)\<close> and the reshape of the scores to \<open>[-1, 0]\<close> fails.
\<close>

theorem attention_forward_degenerate:
  "attention_forward \<lparr>shape = [2, 0, 1], data = []\<rparr> \<lparr>shape = [2, 0, 1], data = []\<rparr>
      \<lparr>shape = [2, 1], data = [0, 0]\<rparr> \<lparr>shape = [1, 1], data = [0]\<rparr> \<lparr>shape = [1], data = [0]\<rparr>
      \<lparr>shape = [1, 1], data = [1]\<rparr> = None"
  by (simp add: attention_forward_def tf_shape_at_def tf_matmul_def tf_expand_dims_def tf_add_def
      tf_binop_def tf_relu_def tmap_def tf_reshape_def)

text \<open>
  Claim C2, amended. For \<open>X\<close> and \<open>X_proj\<close> of shape \<open>(N, L, D)\<close> with \<open>L > 0\<close> and \<open>D > 0\<close>, \<open>prev_h\<close>
  of shape \<open>(N, H)\<close>, \<open>W_proj_h\<close> of shape \<open>(H, D)\<close>, \<open>b_proj\<close> of shape \<open>(D)\<close> and \<open>W_att\<close> of shape
  \<open>(D, 1)\<close>, \<open>attention_forward\<close> returns \<open>(context, alpha)\<close>: \<open>alpha\<close> of shape \<open>(N, L)\<close> is the
  row-wise softmax of the scores \<open>attention_score\<close>, and \<open>context\<close> of shape \<open>(N, D)\<close> is
  \<open>context[n] = \<Sum>l<L. alpha[n, l] * X[n, l]\<close>.
\<close>

theorem attention_forward_correct:
  assumes "has_shape X [N, L, D]" "has_shape X_proj [N, L, D]" "has_shape prev_h [N, H]"
    "has_shape W_proj_h [H, D]" "has_shape b_proj [D]" "has_shape W_att [D, 1]"
    and "0 < L" "0 < D"
  shows "\<exists>context alpha.
           attention_forward X X_proj prev_h W_proj_h b_proj W_att = Some (context, alpha) \<and>
           has_shape context [N, D] \<and> has_shape alpha [N, L] \<and>
           (\<forall>n<N. \<forall>l<L. at2 alpha n l =
              exp (attention_score X_proj prev_h W_proj_h b_proj W_att n l)
              / (\<Sum>l'<L. exp (attention_score X_proj prev_h W_proj_h b_proj W_att n l'))) \<and>
           (\<forall>n<N. \<forall>d<D. at2 context n d = (\<Sum>l<L. at2 alpha n l * at3 X n l d))"
  using assms by (rule attention_forward_ok)

theorem attention_forward_correct_witness:
  "has_shape \<lparr>shape = [1, 2, 1], data = [3, 5 :: real]\<rparr> [1, 2, 1] \<and>
   has_shape \<lparr>shape = [1, 2, 1], data = [0, 0 :: real]\<rparr> [1, 2, 1] \<and>
   has_shape \<lparr>shape = [1, 1], data = [0 :: real]\<rparr> [1, 1] \<and>
   has_shape \<lparr>shape = [1], data = [0 :: real]\<rparr> [1] \<and>
   has_shape \<lparr>shape = [1, 1], data = [1 :: real]\<rparr> [1, 1] \<and> (0::nat) < 2 \<and> (0::nat) < 1 \<and>
   (\<exists>context alpha.
      attention_forward \<lparr>shape = [1, 2, 1], data = [3, 5]\<rparr> \<lparr>shape = [1, 2, 1], data = [0, 0]\<rparr>
        \<lparr>shape = [1, 1], data = [0]\<rparr> \<lparr>shape = [1, 1], data = [0]\<rparr> \<lparr>shape = [1], data = [0]\<rparr>
        \<lparr>shape = [1, 1], data = [1]\<rparr> = Some (context, alpha) \<and>
      at2 alpha 0 0 = 1 / 2 \<and> at2 alpha 0 1 = 1 / 2 \<and> at2 context 0 0 = 4)"
proof -
  have sh: "has_shape \<lparr>shape = [1, 2, 1], data = [3, 5 :: real]\<rparr> [1, 2, 1]"
    "has_shape \<lparr>shape = [1, 2, 1], data = [0, 0 :: real]\<rparr> [1, 2, 1]"
    "has_shape \<lparr>shape = [1, 1], data = [0 :: real]\<rparr> [1, 1]"
    "has_shape \<lparr>shape = [1], data = [0 :: real]\<rparr> [1]"
    "has_shape \<lparr>shape = [1, 1], data = [1 :: real]\<rparr> [1, 1]"
    by (simp_all add: has_shape_def)
  have pos: "(0::nat) < 2" "(0::nat) < 1" by simp_all
  have sc: "attention_score \<lparr>shape = [1, 2, 1], data = [0, 0]\<rparr> \<lparr>shape = [1, 1], data = [0]\<rparr>
      \<lparr>shape = [1, 1], data = [0]\<rparr> \<lparr>shape = [1], data = [0]\<rparr> \<lparr>shape = [1, 1], data = [1]\<rparr> 0 l = 0"
    if "l < 2" for l
    using that by (auto simp: attention_score_def at3_def at2_def at1_def relu_def numeral_2_eq_2 less_Suc_eq)
  from attention_forward_correct [OF sh(1) sh(2) sh(3) sh(3) sh(4) sh(5) pos]
  obtain ctx alpha where r:
    "attention_forward \<lparr>shape = [1, 2, 1], data = [3, 5]\<rparr> \<lparr>shape = [1, 2, 1], data = [0, 0]\<rparr>
        \<lparr>shape = [1, 1], data = [0]\<rparr> \<lparr>shape = [1, 1], data = [0]\<rparr> \<lparr>shape = [1], data = [0]\<rparr>
        \<lparr>shape = [1, 1], data = [1]\<rparr> = Some (ctx, alpha)"
    "\<forall>n<1. \<forall>l<2. at2 alpha n l =
        exp (attention_score \<lparr>shape = [1, 2, 1], data = [0, 0]\<rparr> \<lparr>shape = [1, 1], data = [0]\<rparr>
               \<lparr>shape = [1, 1], data = [0]\<rparr> \<lparr>shape = [1], data = [0]\<rparr> \<lparr>shape = [1, 1], data = [1]\<rparr> n l)
        / (\<Sum>l'<2. exp (attention_score \<lparr>shape = [1, 2, 1], data = [0, 0]\<rparr> \<lparr>shape = [1, 1], data = [0]\<rparr>
               \<lparr>shape = [1, 1], data = [0]\<rparr> \<lparr>shape = [1], data = [0]\<rparr> \<lparr>shape = [1, 1], data = [1]\<rparr> n l'))"
    "\<forall>n<1. \<forall>d<1. at2 ctx n d = (\<Sum>l<2. at2 alpha n l * at3 \<lparr>shape = [1, 2, 1], data = [3, 5]\<rparr> n l d)"
    by blast
  have al: "at2 alpha 0 l = 1 / 2" if "l < 2" for l
  proof -
    have "(\<Sum>l'<2. exp (attention_score \<lparr>shape = [1, 2, 1], data = [0, 0]\<rparr> \<lparr>shape = [1, 1], data = [0]\<rparr>
               \<lparr>shape = [1, 1], data = [0]\<rparr> \<lparr>shape = [1], data = [0]\<rparr> \<lparr>shape = [1, 1], data = [1]\<rparr> 0 l'))
          = (\<Sum>l'<(2::nat). exp (0::real))"
    proof (rule sum.cong[OF refl])
      fix l' :: nat assume "l' \<in> {..<2}"
      then have "l' < 2" by simp
      from sc[OF this]
      show "exp (attention_score \<lparr>shape = [1, 2, 1], data = [0, 0]\<rparr> \<lparr>shape = [1, 1], data = [0]\<rparr>
               \<lparr>shape = [1, 1], data = [0]\<rparr> \<lparr>shape = [1], data = [0]\<rparr> \<lparr>shape = [1, 1], data = [1]\<rparr> 0 l')
          = exp (0::real)"
        by (simp only:)
    qed
    moreover from r(2) that have "at2 alpha 0 l =
        exp (attention_score \<lparr>shape = [1, 2, 1], data = [0, 0]\<rparr> \<lparr>shape = [1, 1], data = [0]\<rparr>
               \<lparr>shape = [1, 1], data = [0]\<rparr> \<lparr>shape = [1], data = [0]\<rparr> \<lparr>shape = [1, 1], data = [1]\<rparr> 0 l)
        / (\<Sum>l'<2. exp (attention_score \<lparr>shape = [1, 2, 1], data = [0, 0]\<rparr> \<lparr>shape = [1, 1], data = [0]\<rparr>
               \<lparr>shape = [1, 1], data = [0]\<rparr> \<lparr>shape = [1], data = [0]\<rparr> \<lparr>shape = [1, 1], data = [1]\<rparr> 0 l'))"
      by simp
    ultimately show ?thesis using sc[OF that] by simp
  qed
  from r(3) have "at2 ctx 0 0 = (\<Sum>l<2. at2 alpha 0 l * at3 \<lparr>shape = [1, 2, 1], data = [3, 5]\<rparr> 0 l 0)"
    by simp
  then have "at2 ctx 0 0 = 4"
    by (simp add: al numeral_2_eq_2 lessThan_Suc at3_def)
  with r(1) al[of 0] al[of 1] sh pos show ?thesis by simp
qed

end
